theory Spec2Isabelle
  imports Complex_Main "HOL-Library.Product_Lexorder"
begin

section \<open>RLCE (Route-Lock Cellular Enforcement): the decision engine of rcle-demo.py\<close>

text \<open>
  Shallow embedding of the engine class \<open>RLCE\<close> and of the geometry helpers it calls.
  Python floats are read as real numbers (\<open>math.hypot\<close> is the Euclidean norm), Python
  ints as \<open>int\<close>, the exceptions the engine can raise as values of \<open>py_error\<close>.
  Fields whose Python names clash with constants of HOL carry a suffix
  (\<open>id\<close>, \<open>x\<close>, \<open>y\<close>, \<open>a\<close>, \<open>b\<close>, \<open>log\<close>).
\<close>

subsection \<open>Errors and Python list primitives\<close>

datatype py_error = ValueError | IndexError | KeyError

text \<open>
  \<open>xs[i]\<close> on a Python list: positions \<open>0 .. len-1\<close> read from the front, positions
  \<open>-len .. -1\<close> from the back, anything else raises IndexError.
\<close>

definition py_get :: "'a list \<Rightarrow> int \<Rightarrow> py_error + 'a" where
  "py_get xs i =
     (if 0 \<le> i \<and> i < int (length xs) then Inr (xs ! nat i)
      else if i < 0 \<and> - int (length xs) \<le> i then Inr (xs ! nat (int (length xs) + i))
      else Inl IndexError)"

text \<open>
  \<open>min(xs, key=f)\<close>: one pass that keeps the element seen so far and replaces it only by
  a strictly smaller key, so the first minimum wins; ValueError on an empty list.
\<close>

fun min_from :: "('a \<Rightarrow> real) \<Rightarrow> 'a \<Rightarrow> 'a list \<Rightarrow> 'a" where
  "min_from f best [] = best"
| "min_from f best (u # us) = min_from f (if f u < f best then u else best) us"

definition py_min_key :: "('a \<Rightarrow> real) \<Rightarrow> 'a list \<Rightarrow> py_error + 'a" where
  "py_min_key f xs = (case xs of [] \<Rightarrow> Inl ValueError | u # us \<Rightarrow> Inr (min_from f u us))"

text \<open>\<open>xs[-8:]\<close>: the last eight elements, the whole list when it is shorter.\<close>

definition last8 :: "'a list \<Rightarrow> 'a list" where
  "last8 xs = drop (length xs - 8) xs"

subsection \<open>Geometry utilities\<close>

type_synonym point = "real \<times> real"

definition clamp :: "real \<Rightarrow> real \<Rightarrow> real \<Rightarrow> real" where
  "clamp v lo hi = max lo (min hi v)"

definition dist_pt :: "point \<Rightarrow> point \<Rightarrow> real" where
  "dist_pt p q = sqrt ((fst p - fst q)\<^sup>2 + (snd p - snd q)\<^sup>2)"

definition project_point_to_segment :: "point \<Rightarrow> point \<Rightarrow> point \<Rightarrow> point \<times> real \<times> real" where
  "project_point_to_segment p a b =
     (let ax = fst a; ay = snd a; bx = fst b; by = snd b; px = fst p; py = snd p;
          abx = bx - ax; aby = by - ay;
          ab2 = abx * abx + aby * aby
      in if ab2 = 0 then (a, 0, dist_pt p a)
         else
           let apx = px - ax; apy = py - ay;
               t = clamp ((apx * abx + apy * aby) / ab2) 0 1;
               q = (ax + abx * t, ay + aby * t)
           in (q, t, dist_pt p q))"

text \<open>The third component, the only one the engine reads.\<close>

definition seg_dist :: "point \<Rightarrow> point \<Rightarrow> point \<Rightarrow> real" where
  "seg_dist p a b = snd (snd (project_point_to_segment p a b))"

subsection \<open>Domain types\<close>

definition PLMNS :: "string list" where
  "PLMNS = [''310260'', ''311480'', ''310410'']"

text \<open>\<open>ALLOWED_ARFCN.get(tech, set())\<close>.\<close>

definition ALLOWED_ARFCN_get :: "string \<Rightarrow> int set" where
  "ALLOWED_ARFCN_get t =
     (if t = ''LTE'' then {66486, 66490, 66500, 5140, 1302}
      else if t = ''NR'' then {523800, 627936}
      else {})"

record CellTower =
  id_tw :: int
  x_tw :: real
  y_tw :: real
  plmn :: string
  tech :: string
  arfcn :: int
  tac :: int
  pci :: int
  rogue :: bool

definition pos :: "CellTower \<Rightarrow> point" where
  "pos tw = (x_tw tw, y_tw tw)"

record Segment =
  idx :: int
  a_seg :: point
  b_seg :: point
  cal :: "int set"

definition mid :: "Segment \<Rightarrow> point" where
  "mid s = ((fst (a_seg s) + fst (b_seg s)) / 2, (snd (a_seg s) + snd (b_seg s)) / 2)"

record Route =
  points :: "point list"
  segments :: "Segment list"
  operator_plmn :: string

text \<open>
  \<open>Route.from_polyline\<close>: segment \<open>i\<close> joins \<open>pts[i]\<close> and \<open>pts[i+1]\<close>, for
  \<open>i\<close> in \<open>range(len(pts)-1)\<close>; every segment gets its own empty \<open>cal\<close> set, and
  \<open>operator_plmn\<close> is the default.
\<close>

definition from_polyline :: "point list \<Rightarrow> Route" where
  "from_polyline pts =
     \<lparr> points = pts,
       segments = map (\<lambda>i. \<lparr> idx = int i, a_seg = pts ! i, b_seg = pts ! (i + 1), cal = {} \<rparr>)
                      [0 ..< length pts - 1],
       operator_plmn = ''310260'' \<rparr>"

subsection \<open>Engine state\<close>

text \<open>
  A line of the event log, one constructor for each format string of the source:
  the line of \<open>log_event\<close> (time stamp, segment, decision, cell id or None),
  \<open>saved {fn}\<close>, \<open>forced reselection -> {id}\<close>, \<open>tower {id} rogue={rogue}\<close>,
  and the fixed messages.
\<close>

datatype log_line =
    Event string int string "int option"
  | Saved string
  | Forced int
  | Toggled int bool
  | Msg string

record RLCE =
  route :: Route
  towers :: "CellTower list"
  grace :: int
  hysteresis :: real
  poll_ms :: int
  last_seg_idx :: "int option"
  last_serving :: "CellTower option"
  last_poll_time :: real
  log_rlce :: "log_line list"

definition init_RLCE :: "Route \<Rightarrow> CellTower list \<Rightarrow> RLCE" where
  "init_RLCE r tws =
     \<lparr> route = r, towers = tws, grace = 1, hysteresis = 40, poll_ms = 250,
       last_seg_idx = None, last_serving = None, last_poll_time = 0, log_rlce = [] \<rparr>"

subsection \<open>Engine operations\<close>

text \<open>
  \<open>rebuild_cal\<close>: for every segment, clear \<open>cal\<close> and add the id of every tower within
  the radius of the midpoint that is not rogue. The inner loop is a fold over the towers.
\<close>

definition cal_add :: "real \<Rightarrow> point \<Rightarrow> int set \<Rightarrow> CellTower \<Rightarrow> int set" where
  "cal_add radius_px m s tw =
     (if dist_pt m (pos tw) \<le> radius_px \<and> \<not> rogue tw then insert (id_tw tw) s else s)"

definition rebuild_seg :: "real \<Rightarrow> CellTower list \<Rightarrow> Segment \<Rightarrow> Segment" where
  "rebuild_seg radius_px tws seg = seg\<lparr> cal := foldl (cal_add radius_px (mid seg)) {} tws \<rparr>"

definition rebuild_cal :: "real \<Rightarrow> RLCE \<Rightarrow> RLCE" where
  "rebuild_cal radius_px st =
     st\<lparr> route := (route st)\<lparr> segments := map (rebuild_seg radius_px (towers st))
                                                (segments (route st)) \<rparr> \<rparr>"

text \<open>
  \<open>locate_segment\<close>: the list of (distance, idx) pairs is sorted (tuples compare
  lexicographically) and its head taken, IndexError on an empty route; the two
  \<open>segments[...]\<close> reads are Python indexing by the stored \<open>idx\<close> values.
\<close>

definition locate_segment :: "point \<Rightarrow> RLCE \<Rightarrow> py_error + (int \<times> RLCE)" where
  "locate_segment p st =
     (let segs = segments (route st);
          dists = sort (map (\<lambda>seg. (seg_dist p (a_seg seg) (b_seg seg), idx seg)) segs)
      in case dists of
           [] \<Rightarrow> Inl IndexError
         | d0 # _ \<Rightarrow>
             (let nearest_idx = snd d0
              in (case last_seg_idx st of
                    None \<Rightarrow> Inr (nearest_idx, st\<lparr> last_seg_idx := Some nearest_idx \<rparr>)
                  | Some cur \<Rightarrow>
                      (case py_get segs cur of
                         Inl e \<Rightarrow> Inl e
                       | Inr cur_seg \<Rightarrow>
                           (case py_get segs nearest_idx of
                              Inl e \<Rightarrow> Inl e
                            | Inr new_seg \<Rightarrow>
                                (let d_current = seg_dist p (a_seg cur_seg) (b_seg cur_seg);
                                     d_new = seg_dist p (a_seg new_seg) (b_seg new_seg)
                                 in if d_new + hysteresis st < d_current
                                    then Inr (nearest_idx, st\<lparr> last_seg_idx := Some nearest_idx \<rparr>)
                                    else Inr (cur, st)))))))"

text \<open>
  \<open>cal_window\<close>: the union of \<open>cal\<close> over
  \<open>range(max(0, idx-grace), min(len(segments)-1, idx+grace)+1)\<close>.
\<close>

definition cal_window :: "int \<Rightarrow> RLCE \<Rightarrow> int set" where
  "cal_window i st =
     (let segs = segments (route st)
      in foldl (\<lambda>s j. s \<union> cal (segs ! nat j)) {}
           [max 0 (i - grace st) .. min (int (length segs) - 1) (i + grace st)])"

definition nearest_tower :: "point \<Rightarrow> RLCE \<Rightarrow> py_error + CellTower" where
  "nearest_tower p st = py_min_key (\<lambda>tw. dist_pt p (pos tw)) (towers st)"

text \<open>The three checks of \<open>legitimacy_check\<close>, each worth one point.\<close>

definition plmn_ok :: "RLCE \<Rightarrow> CellTower \<Rightarrow> bool" where
  "plmn_ok st cur = (plmn cur = operator_plmn (route st))"

definition tac_ok :: "CellTower \<Rightarrow> CellTower option \<Rightarrow> bool" where
  "tac_ok cur prev = (case prev of None \<Rightarrow> True | Some pv \<Rightarrow> \<bar>tac cur - tac pv\<bar> \<le> 1)"

definition arfcn_ok :: "CellTower \<Rightarrow> bool" where
  "arfcn_ok cur = (arfcn cur \<in> ALLOWED_ARFCN_get (tech cur))"

definition legitimacy_check :: "RLCE \<Rightarrow> CellTower \<Rightarrow> CellTower option \<Rightarrow> int" where
  "legitimacy_check st cur prev =
     (let score = 0;
          score = (if plmn_ok st cur then score + 1 else score);
          score = (if tac_ok cur prev then score + 1 else score);
          score = (if arfcn_ok cur then score + 1 else score)
      in score)"

text \<open>
  \<open>log_event\<close>: append the line, keep the last eight. The time stamp \<open>ts\<close> is what
  \<open>time.strftime\<close> reads from the wall clock.
\<close>

definition log_event :: "string \<Rightarrow> int \<Rightarrow> string \<Rightarrow> int option \<Rightarrow> RLCE \<Rightarrow> RLCE" where
  "log_event ts seg_idx decision cell_id st =
     st\<lparr> log_rlce := last8 (log_rlce st @ [Event ts seg_idx decision cell_id]) \<rparr>"

text \<open>The candidates of a BARRED poll and the tower reselected among them.\<close>

definition candidates :: "int set \<Rightarrow> RLCE \<Rightarrow> CellTower list" where
  "candidates window st = filter (\<lambda>tw. id_tw tw \<in> window) (towers st)"

definition reselect :: "point \<Rightarrow> CellTower list \<Rightarrow> CellTower option" where
  "reselect p cands =
     (case cands of [] \<Rightarrow> None | u # us \<Rightarrow> Some (min_from (\<lambda>tw. dist_pt p (pos tw)) u us))"

text \<open>
  \<open>step\<close>: \<open>None\<close> inside the cooldown, otherwise the triple
  (segment index, decision, serving tower or None). \<open>p\<close> is \<open>train.pos()\<close>.
\<close>

definition classify :: "point \<Rightarrow> int set \<Rightarrow> CellTower \<Rightarrow> RLCE \<Rightarrow> string \<times> CellTower option" where
  "classify p window serving st =
     (let allowed = (id_tw serving \<in> window)
      in if allowed then (''ALLOWED'', Some serving)
         else
           let score = legitimacy_check st serving (last_serving st)
           in if score \<ge> 2 \<and> \<not> rogue serving then (''ALLOWED*'', Some serving)
              else (''BARRED'', reselect p (candidates window st)))"

definition step :: "string \<Rightarrow> point \<Rightarrow> real \<Rightarrow> RLCE
    \<Rightarrow> py_error + ((int \<times> string \<times> CellTower option) option \<times> RLCE)" where
  "step ts p now st =
     (if (now - last_poll_time st) * 1000 < real_of_int (poll_ms st) then Inr (None, st)
      else
        (let st1 = st\<lparr> last_poll_time := now \<rparr>
         in case locate_segment p st1 of
              Inl e \<Rightarrow> Inl e
            | Inr (seg_idx, st2) \<Rightarrow>
                (let window = cal_window seg_idx st2
                 in (case nearest_tower p st2 of
                       Inl e \<Rightarrow> Inl e
                     | Inr cand \<Rightarrow>
                         (let (decision, serving) = classify p window cand st2;
                              st3 = (case serving of
                                       None \<Rightarrow> st2
                                     | Some tw \<Rightarrow> st2\<lparr> last_serving := Some tw \<rparr>);
                              st4 = log_event ts seg_idx decision (map_option id_tw serving) st3
                          in Inr (Some (seg_idx, decision, serving), st4))))))"

subsection \<open>The writes of the user interface and of the main loop to the engine\<close>

text \<open>\<open>rlce.log.append(line)\<close>: a plain append, with no trimming.\<close>

definition log_append :: "log_line \<Rightarrow> RLCE \<Rightarrow> RLCE" where
  "log_append line st = st\<lparr> log_rlce := log_rlce st @ [line] \<rparr>"

text \<open>\<open>UI.save_screenshot\<close>; \<open>fn\<close> is the file name built from \<open>time.time()\<close>.\<close>

definition save_screenshot :: "string \<Rightarrow> RLCE \<Rightarrow> RLCE" where
  "save_screenshot fn st = log_append (Saved fn) st"

text \<open>
  Key L, forced reselection: the nearest in-window tower becomes \<open>last_serving\<close> when
  there is one (here the key is \<open>dist(tw.pos(), train.pos())\<close>).
\<close>

definition key_l :: "point \<Rightarrow> RLCE \<Rightarrow> py_error + RLCE" where
  "key_l p st =
     (case locate_segment p st of
        Inl e \<Rightarrow> Inl e
      | Inr (seg_idx, st1) \<Rightarrow>
          (let window = cal_window seg_idx st1
           in (case candidates window st1 of
                 [] \<Rightarrow> Inr (log_append (Msg ''no in-window towers for reselection'') st1)
               | u # us \<Rightarrow>
                   (let tw = min_from (\<lambda>tw. dist_pt (pos tw) p) u us
                    in Inr (log_append (Forced (id_tw tw)) (st1\<lparr> last_serving := Some tw \<rparr>))))))"

text \<open>
  Key N: the tower list is replaced by a freshly generated one (\<open>make_towers(70)\<close>, random,
  here the argument \<open>tws\<close>) and the calibration rebuilt with the default radius.
\<close>

definition key_n :: "CellTower list \<Rightarrow> RLCE \<Rightarrow> RLCE" where
  "key_n tws st = rebuild_cal 220 (st\<lparr> towers := tws \<rparr>)"

text \<open>Keys G, H, 1, 2, 3, 4: the tunables, clamped by the main loop.\<close>

definition key_g :: "RLCE \<Rightarrow> RLCE" where
  "key_g st = st\<lparr> grace := max 0 (grace st - 1) \<rparr>"

definition key_h :: "RLCE \<Rightarrow> RLCE" where
  "key_h st = st\<lparr> grace := min 3 (grace st + 1) \<rparr>"

definition key_1 :: "RLCE \<Rightarrow> RLCE" where
  "key_1 st = st\<lparr> hysteresis := max 0 (hysteresis st - 10) \<rparr>"

definition key_2 :: "RLCE \<Rightarrow> RLCE" where
  "key_2 st = st\<lparr> hysteresis := min 120 (hysteresis st + 10) \<rparr>"

definition key_3 :: "RLCE \<Rightarrow> RLCE" where
  "key_3 st = st\<lparr> poll_ms := max 50 (poll_ms st - 25) \<rparr>"

definition key_4 :: "RLCE \<Rightarrow> RLCE" where
  "key_4 st = st\<lparr> poll_ms := min 1000 (poll_ms st + 25) \<rparr>"

text \<open>
  \<open>find_nearby_tower\<close>, returning the position in the list of the tower found: the first
  tower at the least distance among those within the radius and nearer than \<open>1e9\<close>.
\<close>

fun find_nearby_from :: "point \<Rightarrow> real \<Rightarrow> nat \<Rightarrow> nat option \<Rightarrow> real \<Rightarrow> CellTower list \<Rightarrow> nat option" where
  "find_nearby_from p radius i best best_d [] = best"
| "find_nearby_from p radius i best best_d (tw # tws) =
     (let d = dist_pt (pos tw) p
      in if d \<le> radius \<and> d < best_d
         then find_nearby_from p radius (i + 1) (Some i) d tws
         else find_nearby_from p radius (i + 1) best best_d tws)"

definition find_nearby_tower :: "CellTower list \<Rightarrow> point \<Rightarrow> real \<Rightarrow> nat option" where
  "find_nearby_tower tws p radius = find_nearby_from p radius 0 None 1000000000 tws"

text \<open>
  Key R, the rogue toggle. The tower found is mutated in place, the calibration rebuilt and
  a line appended. \<open>first_allowed\<close> stands for \<open>list(ALLOWED_ARFCN[tw.tech])[0]\<close>, whose
  value depends on the iteration order of a Python set (KeyError for an unknown technology);
  \<open>aliased\<close> tells whether \<open>last_serving\<close> is the very object that is mutated, which
  the by-value state cannot tell.
\<close>

definition toggle_rogue :: "int \<Rightarrow> string \<Rightarrow> CellTower \<Rightarrow> py_error + CellTower" where
  "toggle_rogue first_allowed op tw =
     (if \<not> rogue tw
      then (case filter (\<lambda>q. q \<noteq> op) PLMNS of
              [] \<Rightarrow> Inl IndexError
            | q # _ \<Rightarrow> Inr (tw\<lparr> rogue := True, plmn := q, arfcn := 1492 \<rparr>))
      else if tech tw = ''LTE'' \<or> tech tw = ''NR''
           then Inr (tw\<lparr> rogue := False, plmn := op, arfcn := first_allowed \<rparr>)
           else Inl KeyError)"

definition key_r :: "int \<Rightarrow> bool \<Rightarrow> point \<Rightarrow> RLCE \<Rightarrow> py_error + RLCE" where
  "key_r first_allowed aliased p st =
     (case find_nearby_tower (towers st) p 200 of
        None \<Rightarrow> Inr (log_append (Msg ''no tower nearby to toggle'') st)
      | Some i \<Rightarrow>
          (case toggle_rogue first_allowed (operator_plmn (route st)) (towers st ! i) of
             Inl e \<Rightarrow> Inl e
           | Inr tw \<Rightarrow>
               (let st1 = st\<lparr> towers := (towers st)[i := tw],
                              last_serving := (if aliased then map_option (\<lambda>_. tw) (last_serving st)
                                               else last_serving st) \<rparr>
                in Inr (log_append (Toggled (id_tw tw) (rogue tw)) (rebuild_cal 220 st1)))))"

text \<open>
  One iteration of the main loop as far as the engine is concerned: \<open>step\<close>, and
  \<open>locate_segment\<close> again when \<open>step\<close> returned \<open>None\<close>.
\<close>

definition tick :: "string \<Rightarrow> point \<Rightarrow> real \<Rightarrow> RLCE \<Rightarrow> py_error + RLCE" where
  "tick ts p now st =
     (case step ts p now st of
        Inl e \<Rightarrow> Inl e
      | Inr (None, st1) \<Rightarrow> (case locate_segment p st1 of Inl e \<Rightarrow> Inl e | Inr (_, st2) \<Rightarrow> Inr st2)
      | Inr (Some _, st1) \<Rightarrow> Inr st1)"

text \<open>Everything that writes to the engine, as one type of operations.\<close>

datatype engine_op =
    OpTick string point real
  | OpStep string point real
  | OpLocate point
  | OpRebuildCal real
  | OpKeyL point
  | OpKeyN "CellTower list"
  | OpKeyR int bool point
  | OpKeyG | OpKeyH | OpKey1 | OpKey2 | OpKey3 | OpKey4
  | OpKeyS string
  | OpEscIgnored
  | OpEscArm

fun apply_op :: "engine_op \<Rightarrow> RLCE \<Rightarrow> py_error + RLCE" where
  "apply_op (OpTick ts p now) st = tick ts p now st"
| "apply_op (OpStep ts p now) st = map_sum (\<lambda>e. e) snd (step ts p now st)"
| "apply_op (OpLocate p) st = map_sum (\<lambda>e. e) snd (locate_segment p st)"
| "apply_op (OpRebuildCal r) st = Inr (rebuild_cal r st)"
| "apply_op (OpKeyL p) st = key_l p st"
| "apply_op (OpKeyN tws) st = Inr (key_n tws st)"
| "apply_op (OpKeyR fa al p) st = key_r fa al p st"
| "apply_op OpKeyG st = Inr (key_g st)"
| "apply_op OpKeyH st = Inr (key_h st)"
| "apply_op OpKey1 st = Inr (key_1 st)"
| "apply_op OpKey2 st = Inr (key_2 st)"
| "apply_op OpKey3 st = Inr (key_3 st)"
| "apply_op OpKey4 st = Inr (key_4 st)"
| "apply_op (OpKeyS fn) st = Inr (save_screenshot fn st)"
| "apply_op OpEscIgnored st = Inr (log_append (Msg ''ESC ignored (debounce)'') st)"
| "apply_op OpEscArm st = Inr (log_append (Msg ''Press ESC again to exit...'') st)"

text \<open>A run of operations stops at the first exception, as the main loop does.\<close>

fun run_ops :: "engine_op list \<Rightarrow> RLCE \<Rightarrow> py_error + RLCE" where
  "run_ops [] st = Inr st"
| "run_ops (ev # evs) st = (case apply_op ev st of Inl e \<Rightarrow> Inl e | Inr st1 \<Rightarrow> run_ops evs st1)"

subsection \<open>A small world for concrete runs\<close>

text \<open>
  A straight route of two segments along the x axis, a clean tower \<open>twA\<close> on it, a rogue
  tower \<open>twB\<close>, a clean tower \<open>twC\<close> far from the route and a clean tower \<open>twD\<close> as far
  from the point \<open>(8, 0)\<close> as \<open>twA\<close> is.
\<close>

definition twA :: CellTower where
  "twA = \<lparr> id_tw = 0, x_tw = 5, y_tw = 0, plmn = ''310260'', tech = ''LTE'', arfcn = 66486,
           tac = 100, pci = 1, rogue = False \<rparr>"

definition twB :: CellTower where
  "twB = \<lparr> id_tw = 1, x_tw = 8, y_tw = 0, plmn = ''311480'', tech = ''LTE'', arfcn = 1492,
           tac = 110, pci = 2, rogue = True \<rparr>"

definition twC :: CellTower where
  "twC = \<lparr> id_tw = 2, x_tw = 300, y_tw = 0, plmn = ''310260'', tech = ''NR'', arfcn = 523800,
           tac = 101, pci = 3, rogue = False \<rparr>"

definition demo_route :: Route where
  "demo_route = from_polyline [(0, 0), (10, 0), (20, 0)]"

definition demo :: "CellTower list \<Rightarrow> RLCE" where
  "demo tws = rebuild_cal 220 (init_RLCE demo_route tws)"

definition twD :: CellTower where
  "twD = \<lparr> id_tw = 3, x_tw = 11, y_tw = 0, plmn = ''310410'', tech = ''NR'', arfcn = 627936,
           tac = 100, pci = 4, rogue = False \<rparr>"

definition demo1 :: RLCE where
  "demo1 = (demo [twA, twB])\<lparr> last_poll_time := 1, last_seg_idx := Some 0, last_serving := Some twA,
                    log_rlce := [Event ''12:00:01'' 0 ''BARRED'' (Some 0)] \<rparr>"

text \<open>
  The world after \<open>demo1\<close> once the tower list has been regenerated to the rogue tower
  alone, and the state after the next poll there.
\<close>

definition demo2 :: RLCE where
  "demo2 = key_n [twB] demo1"

definition demo3 :: RLCE where
  "demo3 = demo2\<lparr> last_poll_time := 2,
                  log_rlce := [Event ''12:00:01'' 0 ''BARRED'' (Some 0),
                               Event ''12:00:02'' 0 ''BARRED'' None] \<rparr>"

text \<open>
  The calibration stored in the route is the one \<open>rebuild_cal\<close> computes from the current
  towers with radius \<open>r\<close>.
\<close>

definition calibrated :: "real \<Rightarrow> RLCE \<Rightarrow> bool" where
  "calibrated r st = (rebuild_cal r st = st)"

section \<open>Properties\<close>

subsection \<open>Auxiliary facts\<close>

lemma min_from_mem: "min_from f b us \<in> set (b # us)"
  by (induction us arbitrary: b) auto

lemma min_from_le_best: "f (min_from f b us) \<le> f b"
proof (induction us arbitrary: b)
  case Nil
  show ?case by simp
next
  case (Cons u us)
  have "f (min_from f (if f u < f b then u else b) us) \<le> f (if f u < f b then u else b)"
    by (rule Cons.IH)
  then show ?case by (simp split: if_splits)
qed

lemma min_from_le: "u \<in> set us \<Longrightarrow> f (min_from f b us) \<le> f u"
proof (induction us arbitrary: b)
  case Nil
  then show ?case by simp
next
  case (Cons v vs)
  show ?case
  proof (cases "u = v")
    case True
    have "f (min_from f (if f v < f b then v else b) vs) \<le> f (if f v < f b then v else b)"
      by (rule min_from_le_best)
    with True show ?thesis by (simp split: if_splits)
  next
    case False
    with Cons.prems have "u \<in> set vs" by simp
    then show ?thesis using Cons.IH by simp
  qed
qed

lemma min_from_keep: "\<forall>u\<in>set us. f b \<le> f u \<Longrightarrow> min_from f b us = b"
  by (induction us) auto

lemma min_from_first:
  "\<forall>u\<in>set (b # pre). f t < f u \<Longrightarrow> \<forall>u\<in>set post. f t \<le> f u \<Longrightarrow>
   min_from f b (pre @ t # post) = t"
proof (induction pre arbitrary: b)
  case Nil
  then show ?case by (simp add: min_from_keep)
next
  case (Cons v vs)
  then show ?case by auto
qed

lemma py_min_key_first:
  assumes "\<forall>u\<in>set pre. f t < f u" and "\<forall>u\<in>set post. f t \<le> f u"
  shows "py_min_key f (pre @ t # post) = Inr t"
proof (cases pre)
  case Nil
  with assms show ?thesis by (simp add: py_min_key_def min_from_keep)
next
  case (Cons b bs)
  with assms show ?thesis
    using min_from_first [of b bs f t post] by (simp add: py_min_key_def)
qed

lemma locate_segment_state:
  "locate_segment p st = Inr (i, st') \<Longrightarrow> st' = st\<lparr> last_seg_idx := Some i \<rparr>"
  by (auto simp: locate_segment_def Let_def split: list.splits option.splits sum.splits if_splits)

lemma locate_segment_empty:
  "segments (route st) = [] \<Longrightarrow> locate_segment p st = Inl IndexError"
  by (simp add: locate_segment_def)

lemma cal_window_cong:
  "route st' = route st \<Longrightarrow> grace st' = grace st \<Longrightarrow> cal_window i st' = cal_window i st"
  by (simp add: cal_window_def)

lemma step_cooldown:
  "(now - last_poll_time st) * 1000 < real_of_int (poll_ms st) \<Longrightarrow> step ts p now st = Inr (None, st)"
  by (simp add: step_def)

lemma step_poll:
  assumes "\<not> (now - last_poll_time st) * 1000 < real_of_int (poll_ms st)"
  shows "step ts p now st =
     (case locate_segment p (st\<lparr> last_poll_time := now \<rparr>) of
        Inl e \<Rightarrow> Inl e
      | Inr (i, st2) \<Rightarrow>
          (case nearest_tower p st2 of
             Inl e \<Rightarrow> Inl e
           | Inr cand \<Rightarrow>
               Inr (Some (i, fst (classify p (cal_window i st2) cand st2),
                             snd (classify p (cal_window i st2) cand st2)),
                    log_event ts i (fst (classify p (cal_window i st2) cand st2))
                      (map_option id_tw (snd (classify p (cal_window i st2) cand st2)))
                      (case snd (classify p (cal_window i st2) cand st2) of
                         None \<Rightarrow> st2 | Some tw \<Rightarrow> st2\<lparr> last_serving := Some tw \<rparr>))))"
  using assms by (simp add: step_def Let_def split: sum.splits prod.splits)

lemma demo_route_eq:
  "demo_route = \<lparr> points = [(0, 0), (10, 0), (20, 0)],
       segments = [\<lparr> idx = 0, a_seg = (0, 0), b_seg = (10, 0), cal = {} \<rparr>,
                   \<lparr> idx = 1, a_seg = (10, 0), b_seg = (20, 0), cal = {} \<rparr>],
       operator_plmn = ''310260'' \<rparr>"
  by (simp add: demo_route_def from_polyline_def upt_rec)

lemma demo_AB:
  "demo [twA, twB] = \<lparr> route = \<lparr> points = [(0, 0), (10, 0), (20, 0)],
       segments = [\<lparr> idx = 0, a_seg = (0, 0), b_seg = (10, 0), cal = {0} \<rparr>,
                   \<lparr> idx = 1, a_seg = (10, 0), b_seg = (20, 0), cal = {0} \<rparr>],
       operator_plmn = ''310260'' \<rparr>, towers = [twA, twB], grace = 1, hysteresis = 40, poll_ms = 250,
       last_seg_idx = None, last_serving = None, last_poll_time = 0, log_rlce = [] \<rparr>"
  by (simp add: demo_def demo_route_eq init_RLCE_def rebuild_cal_def rebuild_seg_def cal_add_def
      mid_def pos_def dist_pt_def twA_def twB_def)

lemma upto_0_1: "[0 .. (1::int)] = [0, 1]"
  by code_simp

lemma locate_demo_AB:
  "locate_segment (8, 0) ((demo [twA, twB])\<lparr>last_poll_time := 1\<rparr>) =
     Inr (0, (demo [twA, twB])\<lparr>last_poll_time := 1, last_seg_idx := Some 0\<rparr>)"
  by (simp add: demo_AB locate_segment_def seg_dist_def project_point_to_segment_def Let_def clamp_def dist_pt_def)

lemma window_demo_AB:
  "cal_window 0 ((demo [twA, twB])\<lparr>last_poll_time := 1, last_seg_idx := Some 0\<rparr>) = {0}"
  by (simp add: demo_AB cal_window_def upto_0_1)

lemma nearest_demo_AB:
  "nearest_tower (8, 0) ((demo [twA, twB])\<lparr>last_poll_time := 1, last_seg_idx := Some 0\<rparr>) = Inr twB"
  unfolding demo_AB by (simp add: nearest_tower_def py_min_key_def pos_def dist_pt_def twA_def twB_def)

lemma step_demo_AB:
  "step ts (8, 0) 1 (demo [twA, twB]) =
     Inr (Some (0, ''BARRED'', Some twA),
          (demo [twA, twB])\<lparr> last_poll_time := 1, last_seg_idx := Some 0, last_serving := Some twA,
                    log_rlce := [Event ts 0 ''BARRED'' (Some 0)] \<rparr>)"
proof -
  have nc: "\<not> (1 - last_poll_time (demo [twA, twB])) * 1000 < real_of_int (poll_ms (demo [twA, twB]))"
    by (simp add: demo_AB)
  have cl: "classify (8, 0) {0} twB ((demo [twA, twB])\<lparr>last_poll_time := 1, last_seg_idx := Some 0\<rparr>)
      = (''BARRED'', Some twA)"
    unfolding demo_AB
    by (simp add: classify_def legitimacy_check_def plmn_ok_def tac_ok_def arfcn_ok_def
        ALLOWED_ARFCN_get_def candidates_def reselect_def twA_def twB_def)
  have idA: "id_tw twA = 0" by (simp add: twA_def)
  have lg: "log_rlce (demo [twA, twB]) = []" by (simp add: demo_AB)
  show ?thesis
    by (simp add: step_poll [OF nc] locate_demo_AB window_demo_AB nearest_demo_AB cl log_event_def last8_def idA lg)
qed

lemma locate_segment_other:
  "locate_segment p st = Inr (i, st') \<Longrightarrow>
     route st' = route st \<and> towers st' = towers st \<and> grace st' = grace st \<and>
     hysteresis st' = hysteresis st \<and> poll_ms st' = poll_ms st \<and>
     last_serving st' = last_serving st \<and> last_poll_time st' = last_poll_time st \<and>
     log_rlce st' = log_rlce st"
  by (drule locate_segment_state) simp

lemma step_Some_fields:
  assumes "step ts p now st = Inr (Some r, st')"
  shows "last_poll_time st' = now \<and> poll_ms st' = poll_ms st \<and> route st' = route st \<and>
         towers st' = towers st \<and> grace st' = grace st \<and> hysteresis st' = hysteresis st"
proof -
  have nc: "\<not> (now - last_poll_time st) * 1000 < real_of_int (poll_ms st)"
    using assms by (auto simp: step_def)
  from assms show ?thesis
    unfolding step_poll [OF nc]
    by (auto simp: log_event_def split: sum.splits option.splits dest!: locate_segment_state)
qed

subsection \<open>C8: a step inside the cooldown is a no-op\<close>

text \<open>
  Claim C8. A call of \<open>step\<close> made while the time elapsed since the last poll, in
  milliseconds, is below \<open>poll_ms\<close> returns \<open>None\<close> (no decision this tick) and leaves the
  whole engine state as it was: last segment, last serving tower, last poll time and event
  log. In particular, once a poll at time \<open>now0\<close> has produced a classification, every
  further call at a time \<open>now\<close> with \<open>(now - now0) * 1000 < poll_ms\<close> returns
  \<open>None\<close> and changes nothing, so one poll interval never sees a second classification.
\<close>

theorem step_cooldown_noop:
  "((now - last_poll_time st) * 1000 < real_of_int (poll_ms st) \<longrightarrow> step ts p now st = Inr (None, st)) \<and>
   (step ts0 p0 now0 st0 = Inr (Some r, st) \<and> (now - now0) * 1000 < real_of_int (poll_ms st0)
      \<longrightarrow> step ts p now st = Inr (None, st))"
proof (intro conjI impI)
  assume "(now - last_poll_time st) * 1000 < real_of_int (poll_ms st)"
  then show "step ts p now st = Inr (None, st)" by (rule step_cooldown)
next
  assume a: "step ts0 p0 now0 st0 = Inr (Some r, st) \<and> (now - now0) * 1000 < real_of_int (poll_ms st0)"
  then have "last_poll_time st = now0" "poll_ms st = poll_ms st0"
    using step_Some_fields [of ts0 p0 now0 st0 r st] by simp_all
  with a have "(now - last_poll_time st) * 1000 < real_of_int (poll_ms st)" by simp
  then show "step ts p now st = Inr (None, st)" by (rule step_cooldown)
qed

lemma step_demo1:
  "step ''12:00:01'' (8, 0) 1 (demo [twA, twB]) = Inr (Some (0, ''BARRED'', Some twA), demo1)"
  by (simp add: step_demo_AB demo1_def)

theorem step_cooldown_noop_witness:
  "(11 / 10 - last_poll_time demo1) * 1000 < real_of_int (poll_ms demo1) \<and>
   step ''12:00:01'' (8, 0) 1 (demo [twA, twB]) = Inr (Some (0, ''BARRED'', Some twA), demo1) \<and>
   (11 / 10 - 1) * 1000 < real_of_int (poll_ms (demo [twA, twB])) \<and>
   step ''12:00:01'' (9, 0) (11 / 10) demo1 = Inr (None, demo1)"
proof -
  have h1: "(11 / 10 - last_poll_time demo1) * 1000 < real_of_int (poll_ms demo1)"
    by (simp add: demo1_def demo_AB)
  have h2: "(11 / 10 - 1) * 1000 < real_of_int (poll_ms (demo [twA, twB]))"
    by (simp add: demo_AB)
  show ?thesis
    using step_cooldown_noop [of "11 / 10" demo1 "''12:00:01''" "(9, 0)" "''12:00:01''" "(8, 0)" 1
        "demo [twA, twB]" "(0, ''BARRED'', Some twA)"] h1 h2 step_demo1
    by simp
qed

subsection \<open>C9: the serving candidate is the first tower at minimum distance\<close>

text \<open>
  Claim C9. \<open>nearest_tower\<close> returns the tower at minimum distance from the position, the
  first one in the order of the tower list among those at that distance: when the list is
  \<open>pre @ A # post\<close>, every tower of \<open>pre\<close> is strictly farther than \<open>A\<close> and no tower of
  \<open>post\<close> is nearer, the result is \<open>A\<close>; for the list \<open>[A, B]\<close> of two equidistant
  towers the result is \<open>A\<close>; and on every non-empty list the call returns a tower of the
  list that no tower of the list is nearer than.
\<close>

theorem nearest_tower_first_minimum:
  "(towers st = pre @ A # post \<and> (\<forall>u\<in>set pre. dist_pt p (pos A) < dist_pt p (pos u)) \<and>
      (\<forall>u\<in>set post. dist_pt p (pos A) \<le> dist_pt p (pos u))
      \<longrightarrow> nearest_tower p st = Inr A) \<and>
   (towers st = [A, B] \<and> dist_pt p (pos A) = dist_pt p (pos B) \<longrightarrow> nearest_tower p st = Inr A) \<and>
   (towers st \<noteq> [] \<longrightarrow>
      (\<exists>t\<in>set (towers st). nearest_tower p st = Inr t \<and>
         (\<forall>u\<in>set (towers st). dist_pt p (pos t) \<le> dist_pt p (pos u))))"
proof (intro conjI impI)
  assume "towers st = pre @ A # post \<and> (\<forall>u\<in>set pre. dist_pt p (pos A) < dist_pt p (pos u)) \<and>
      (\<forall>u\<in>set post. dist_pt p (pos A) \<le> dist_pt p (pos u))"
  then show "nearest_tower p st = Inr A"
    using py_min_key_first [of pre "\<lambda>tw. dist_pt p (pos tw)" A post]
    by (simp add: nearest_tower_def)
next
  assume "towers st = [A, B] \<and> dist_pt p (pos A) = dist_pt p (pos B)"
  then show "nearest_tower p st = Inr A"
    by (simp add: nearest_tower_def py_min_key_def)
next
  assume ne: "towers st \<noteq> []"
  then obtain b us where tw: "towers st = b # us" by (cases "towers st") auto
  let ?f = "\<lambda>tw. dist_pt p (pos tw)"
  have r: "nearest_tower p st = Inr (min_from ?f b us)"
    by (simp add: nearest_tower_def py_min_key_def tw)
  have m: "min_from ?f b us \<in> set (towers st)"
    using min_from_mem [of ?f b us] by (simp add: tw)
  have le: "\<forall>u\<in>set (towers st). ?f (min_from ?f b us) \<le> ?f u"
    using min_from_le [of _ us ?f b] min_from_le_best [of ?f b us] by (auto simp: tw)
  from r m le show "\<exists>t\<in>set (towers st). nearest_tower p st = Inr t \<and>
         (\<forall>u\<in>set (towers st). dist_pt p (pos t) \<le> dist_pt p (pos u))"
    by blast
qed

theorem nearest_tower_first_minimum_witness:
  "towers (demo [twA, twD]) = [] @ twA # [twD] \<and>
   dist_pt (8, 0) (pos twA) = dist_pt (8, 0) (pos twD) \<and>
   towers (demo [twA, twD]) \<noteq> [] \<and>
   nearest_tower (8, 0) (demo [twA, twD]) = Inr twA"
proof -
  have t: "towers (demo [twA, twD]) = [twA, twD]"
    by (simp add: demo_def rebuild_cal_def init_RLCE_def)
  have d: "dist_pt (8, 0) (pos twA) = dist_pt (8, 0) (pos twD)"
    by (simp add: dist_pt_def pos_def twA_def twD_def)
  show ?thesis
    using nearest_tower_first_minimum [of "demo [twA, twD]" "[]" twA "[twD]" "(8, 0)" twD] t d
    by simp
qed

lemma sort_Nil_iff: "sort xs = [] \<longleftrightarrow> xs = []"
  by (metis length_sort length_0_conv)

lemma locate_segment_first:
  assumes "segments (route st) \<noteq> []" and "last_seg_idx st = None"
  shows "\<exists>r. locate_segment p st = Inr r"
  using assms by (auto simp: locate_segment_def Let_def sort_Nil_iff split: list.splits)

lemma nearest_tower_empty: "towers st = [] \<Longrightarrow> nearest_tower p st = Inl ValueError"
  by (simp add: nearest_tower_def py_min_key_def)

subsection \<open>C1: a poll in an empty world\<close>

text \<open>
  Claim C1 says that a poll made outside the cooldown in an empty world (no tower or no
  route segment) returns a defined "no decision / no serving tower" result instead of
  failing. The engine does not: outside the cooldown, \<open>step\<close> raises IndexError when the
  route has no segment (\<open>dists[0]\<close> in \<open>locate_segment\<close>), and raises an exception whenever
  the tower list is empty, which is ValueError (\<open>min\<close> of an empty list in
  \<open>nearest_tower\<close>) on the first poll of an engine over a non-empty route.
\<close>

theorem step_empty_world_raises:
  assumes "\<not> (now - last_poll_time st) * 1000 < real_of_int (poll_ms st)"
  shows "(segments (route st) = [] \<longrightarrow> step ts p now st = Inl IndexError) \<and>
         (towers st = [] \<longrightarrow> (\<exists>e. step ts p now st = Inl e)) \<and>
         (towers st = [] \<and> segments (route st) \<noteq> [] \<and> last_seg_idx st = None
            \<longrightarrow> step ts p now st = Inl ValueError)"
proof (intro conjI impI)
  assume "segments (route st) = []"
  then have "locate_segment p (st\<lparr>last_poll_time := now\<rparr>) = Inl IndexError"
    by (simp add: locate_segment_empty)
  then show "step ts p now st = Inl IndexError"
    by (simp add: step_poll [OF assms])
next
  assume e: "towers st = []"
  show "\<exists>e. step ts p now st = Inl e"
  proof (cases "locate_segment p (st\<lparr>last_poll_time := now\<rparr>)")
    case (Inl err)
    then show ?thesis by (simp add: step_poll [OF assms])
  next
    case (Inr r)
    obtain i st2 where r: "r = (i, st2)" by (cases r)
    have "towers st2 = []"
      using Inr r e locate_segment_other [of p "st\<lparr>last_poll_time := now\<rparr>" i st2] by simp
    then have "nearest_tower p st2 = Inl ValueError" by (rule nearest_tower_empty)
    with Inr r show ?thesis by (simp add: step_poll [OF assms])
  qed
next
  assume a: "towers st = [] \<and> segments (route st) \<noteq> [] \<and> last_seg_idx st = None"
  then obtain r where l: "locate_segment p (st\<lparr>last_poll_time := now\<rparr>) = Inr r"
    using locate_segment_first [of "st\<lparr>last_poll_time := now\<rparr>" p] by auto
  obtain i st2 where r: "r = (i, st2)" by (cases r)
  have "towers st2 = []"
    using l r a locate_segment_other [of p "st\<lparr>last_poll_time := now\<rparr>" i st2] by simp
  then have "nearest_tower p st2 = Inl ValueError" by (rule nearest_tower_empty)
  with l r show "step ts p now st = Inl ValueError" by (simp add: step_poll [OF assms])
qed

theorem step_empty_world_raises_witness:
  "\<not> (1 - last_poll_time (init_RLCE (from_polyline []) [twA])) * 1000
       < real_of_int (poll_ms (init_RLCE (from_polyline []) [twA])) \<and>
   segments (route (init_RLCE (from_polyline []) [twA])) = [] \<and>
   step ''12:00:01'' (8, 0) 1 (init_RLCE (from_polyline []) [twA]) = Inl IndexError \<and>
   \<not> (1 - last_poll_time (init_RLCE demo_route [])) * 1000
       < real_of_int (poll_ms (init_RLCE demo_route [])) \<and>
   towers (init_RLCE demo_route []) = [] \<and>
   segments (route (init_RLCE demo_route [])) \<noteq> [] \<and>
   last_seg_idx (init_RLCE demo_route []) = None \<and>
   step ''12:00:01'' (8, 0) 1 (init_RLCE demo_route []) = Inl ValueError"
proof -
  have a1: "\<not> (1 - last_poll_time (init_RLCE (from_polyline []) [twA])) * 1000
       < real_of_int (poll_ms (init_RLCE (from_polyline []) [twA]))"
    by (simp add: init_RLCE_def)
  have a2: "segments (route (init_RLCE (from_polyline []) [twA])) = []"
    by (simp add: init_RLCE_def from_polyline_def)
  have b1: "\<not> (1 - last_poll_time (init_RLCE demo_route [])) * 1000
       < real_of_int (poll_ms (init_RLCE demo_route []))"
    by (simp add: init_RLCE_def)
  have b2: "towers (init_RLCE demo_route []) = [] \<and>
   segments (route (init_RLCE demo_route [])) \<noteq> [] \<and>
   last_seg_idx (init_RLCE demo_route []) = None"
    by (simp add: init_RLCE_def demo_route_eq)
  show ?thesis
    using step_empty_world_raises [OF a1, of "''12:00:01''" "(8, 0)"]
      step_empty_world_raises [OF b1, of "''12:00:01''" "(8, 0)"] a1 a2 b1 b2
    by blast
qed

subsection \<open>C7: the bound of the event log\<close>

lemma log_event_length:
  "length (log_rlce (log_event ts i d c st)) = min 8 (length (log_rlce st) + 1)"
  by (simp add: log_event_def last8_def)

lemma log_event_bounded: "length (log_rlce (log_event ts i d c st)) \<le> 8"
  by (simp add: log_event_length)

lemma log_event_fifo:
  "log_rlce (log_event ts i d c st) =
     drop (length (log_rlce st) + 1 - 8) (log_rlce st) @ [Event ts i d c]"
  by (simp add: log_event_def last8_def)

lemma log_event_funpow_length:
  "length (log_rlce ((log_event ts i d c ^^ Suc n) st)) = min 8 (length (log_rlce st) + Suc n)"
proof (induction n)
  case 0
  show ?case by (simp add: log_event_length)
next
  case (Suc n)
  have "length (log_rlce ((log_event ts i d c ^^ Suc (Suc n)) st))
      = min 8 (length (log_rlce ((log_event ts i d c ^^ Suc n) st)) + 1)"
    by (simp add: log_event_length)
  with Suc show ?case by simp
qed

text \<open>
  Claim C7 says that the event log never holds more than 8 entries under every sequence
  of operations that appends to it. \<open>log_event\<close> keeps the bound, dropping the oldest
  lines first (the three lemmas above), but \<open>UI.save_screenshot\<close> appends without
  trimming: after eight lines written by \<open>log_event\<close>, from any state, a screenshot
  leaves 9 entries in the log.
\<close>

theorem log_exceeds_bound_after_screenshot:
  "length (log_rlce (save_screenshot fn ((log_event ts i d c ^^ 8) st))) = 9"
proof -
  have e: "(log_event ts i d c ^^ 8) st = (log_event ts i d c ^^ Suc 7) st"
    by simp
  have "length (log_rlce ((log_event ts i d c ^^ 8) st)) = 8"
    unfolding e log_event_funpow_length by simp
  then show ?thesis
    by (simp add: save_screenshot_def log_append_def)
qed

lemma legitimacy_check_cong:
  "route st' = route st \<Longrightarrow> legitimacy_check st' cur prev = legitimacy_check st cur prev"
  by (simp add: legitimacy_check_def plmn_ok_def)

lemma candidates_cong:
  "towers st' = towers st \<Longrightarrow> candidates w st' = candidates w st"
  by (simp add: candidates_def)

lemma nearest_tower_cong:
  "towers st' = towers st \<Longrightarrow> nearest_tower p st' = nearest_tower p st"
  by (simp add: nearest_tower_def)

lemma classify_cong:
  "route st' = route st \<Longrightarrow> towers st' = towers st \<Longrightarrow> last_serving st' = last_serving st \<Longrightarrow>
   classify p w c st' = classify p w c st"
  by (simp add: classify_def legitimacy_check_cong [of st' st] candidates_cong [of st' st])

text \<open>What a poll outside the cooldown returns, in terms of the state before the poll.\<close>

lemma step_SomeD:
  assumes "step ts p now st = Inr (Some (i, d, s), st')"
  shows "\<exists>cand. nearest_tower p st = Inr cand \<and>
           (d, s) = classify p (cal_window i st) cand st \<and>
           last_serving st' = (case s of None \<Rightarrow> last_serving st | Some tw \<Rightarrow> Some tw)"
proof -
  have nc: "\<not> (now - last_poll_time st) * 1000 < real_of_int (poll_ms st)"
    using assms by (auto simp: step_def)
  let ?st1 = "st\<lparr> last_poll_time := now \<rparr>"
  from assms obtain j st2 where l: "locate_segment p ?st1 = Inr (j, st2)"
    unfolding step_poll [OF nc] by (auto split: sum.splits)
  have st2: "st2 = ?st1\<lparr> last_seg_idx := Some j \<rparr>"
    using l by (rule locate_segment_state)
  from assms l obtain cand where n: "nearest_tower p st2 = Inr cand"
    unfolding step_poll [OF nc] by (auto split: sum.splits)
  have w: "cal_window j st2 = cal_window j st"
    by (rule cal_window_cong) (simp_all add: st2)
  have c: "classify p (cal_window j st) cand st2 = classify p (cal_window j st) cand st"
    by (rule classify_cong) (simp_all add: st2)
  have n': "nearest_tower p st = Inr cand"
    using n nearest_tower_cong [of st2 st p] by (simp add: st2)
  let ?C = "classify p (cal_window j st) cand st"
  from assms have eq: "Inr (Some (j, fst ?C, snd ?C),
        log_event ts j (fst ?C) (map_option id_tw (snd ?C))
          (case snd ?C of None \<Rightarrow> st2 | Some tw \<Rightarrow> st2\<lparr> last_serving := Some tw \<rparr>))
      = (Inr (Some (i, d, s), st') :: py_error + ((int \<times> string \<times> CellTower option) option \<times> RLCE))"
    unfolding step_poll [OF nc] by (auto simp: l n w c)
  then have r: "i = j" "d = fst ?C" "s = snd ?C" by auto
  from eq have r4: "st' = log_event ts j (fst ?C) (map_option id_tw (snd ?C))
          (case s of None \<Rightarrow> st2 | Some tw \<Rightarrow> st2\<lparr> last_serving := Some tw \<rparr>)"
    by (auto simp: r(3))
  have ls: "last_serving st' = (case s of None \<Rightarrow> last_serving st | Some tw \<Rightarrow> Some tw)"
    by (simp add: r4 log_event_def st2 split: option.splits)
  from n' r ls show ?thesis by auto
qed

subsection \<open>C4: the legitimacy score and the decision ALLOWED*\<close>

text \<open>
  Claim C4. The legitimacy score is an integer between 0 and 3, the sum of three checks
  worth one point each: the candidate's plmn equals the route's \<open>operator_plmn\<close>; there is
  no prior accepted tower or the tac of the candidate differs from that of the prior one
  by at most 1; the candidate's arfcn is in the allowed set of its technology. And when a
  poll returns and its candidate (the nearest tower) has an id outside the calibration
  window, a score of at least 2 and is not rogue, the decision is \<open>ALLOWED*\<close> (so not
  \<open>BARRED\<close>) and the candidate is the serving tower returned and stored.
\<close>

theorem legitimacy_score_allowed_star:
  "0 \<le> legitimacy_check st cur prev \<and> legitimacy_check st cur prev \<le> 3 \<and>
   legitimacy_check st cur prev =
     (if plmn cur = operator_plmn (route st) then 1 else 0) +
     (if (case prev of None \<Rightarrow> True | Some pv \<Rightarrow> \<bar>tac cur - tac pv\<bar> \<le> 1) then 1 else 0) +
     (if arfcn cur \<in> ALLOWED_ARFCN_get (tech cur) then 1 else 0) \<and>
   (step ts p now st = Inr (Some (i, d, s), st') \<and> nearest_tower p st = Inr cand \<and>
    id_tw cand \<notin> cal_window i st \<and> 2 \<le> legitimacy_check st cand (last_serving st) \<and>
    \<not> rogue cand
      \<longrightarrow> d = ''ALLOWED*'' \<and> d \<noteq> ''BARRED'' \<and> s = Some cand \<and> last_serving st' = Some cand)"
proof (intro conjI impI)
  show "0 \<le> legitimacy_check st cur prev"
    by (simp add: legitimacy_check_def)
  show "legitimacy_check st cur prev \<le> 3"
    by (simp add: legitimacy_check_def)
  show "legitimacy_check st cur prev =
     (if plmn cur = operator_plmn (route st) then 1 else 0) +
     (if (case prev of None \<Rightarrow> True | Some pv \<Rightarrow> \<bar>tac cur - tac pv\<bar> \<le> 1) then 1 else 0) +
     (if arfcn cur \<in> ALLOWED_ARFCN_get (tech cur) then 1 else 0)"
    by (simp add: legitimacy_check_def plmn_ok_def tac_ok_def arfcn_ok_def)
next
  assume a: "step ts p now st = Inr (Some (i, d, s), st') \<and> nearest_tower p st = Inr cand \<and>
    id_tw cand \<notin> cal_window i st \<and> 2 \<le> legitimacy_check st cand (last_serving st) \<and>
    \<not> rogue cand"
  then obtain c where c: "nearest_tower p st = Inr c"
      "(d, s) = classify p (cal_window i st) c st"
      "last_serving st' = (case s of None \<Rightarrow> last_serving st | Some tw \<Rightarrow> Some tw)"
    using step_SomeD [of ts p now st i d s st'] by auto
  with a have "c = cand" by simp
  with a c(2) have ds: "d = ''ALLOWED*''" "s = Some cand"
    by (simp_all add: classify_def)
  show "d = ''ALLOWED*''" by (rule ds)
  show "d \<noteq> ''BARRED''" by (simp add: ds)
  show "s = Some cand" by (rule ds)
  show "last_serving st' = Some cand" using c(3) by (simp add: ds)
qed

lemma demo_AC:
  "demo [twA, twC] = \<lparr> route = \<lparr> points = [(0, 0), (10, 0), (20, 0)],
       segments = [\<lparr> idx = 0, a_seg = (0, 0), b_seg = (10, 0), cal = {0} \<rparr>,
                   \<lparr> idx = 1, a_seg = (10, 0), b_seg = (20, 0), cal = {0} \<rparr>],
       operator_plmn = ''310260'' \<rparr>, towers = [twA, twC], grace = 1, hysteresis = 40, poll_ms = 250,
       last_seg_idx = None, last_serving = None, last_poll_time = 0, log_rlce = [] \<rparr>"
  by (simp add: demo_def demo_route_eq init_RLCE_def rebuild_cal_def rebuild_seg_def cal_add_def
      mid_def pos_def dist_pt_def twA_def twC_def)

lemma locate_demo_AC:
  "locate_segment (300, 0) ((demo [twA, twC])\<lparr>last_poll_time := 1\<rparr>) =
     Inr (1, (demo [twA, twC])\<lparr>last_poll_time := 1, last_seg_idx := Some 1\<rparr>)"
  by (simp add: demo_AC locate_segment_def seg_dist_def project_point_to_segment_def Let_def clamp_def dist_pt_def)

lemma window_demo_AC: "cal_window 1 (demo [twA, twC]) = {0}"
  by (simp add: demo_AC cal_window_def upto_0_1)

lemma nearest_demo_AC: "nearest_tower (300, 0) (demo [twA, twC]) = Inr twC"
  unfolding demo_AC by (simp add: nearest_tower_def py_min_key_def pos_def dist_pt_def twA_def twC_def)

lemma step_demo_AC:
  "step ''12:00:01'' (300, 0) 1 (demo [twA, twC]) =
     Inr (Some (1, ''ALLOWED*'', Some twC),
          (demo [twA, twC])\<lparr> last_poll_time := 1, last_seg_idx := Some 1, last_serving := Some twC,
                    log_rlce := [Event ''12:00:01'' 1 ''ALLOWED*'' (Some 2)] \<rparr>)"
proof -
  have nc: "\<not> (1 - last_poll_time (demo [twA, twC])) * 1000 < real_of_int (poll_ms (demo [twA, twC]))"
    by (simp add: demo_AC)
  let ?st2 = "(demo [twA, twC])\<lparr>last_poll_time := 1, last_seg_idx := Some 1\<rparr>"
  have w: "cal_window 1 ?st2 = {0}"
    using cal_window_cong [of ?st2 "demo [twA, twC]" 1] by (simp add: window_demo_AC)
  have n: "nearest_tower (300, 0) ?st2 = Inr twC"
    using nearest_tower_cong [of ?st2 "demo [twA, twC]" "(300, 0)"] by (simp add: nearest_demo_AC)
  have cl: "classify (300, 0) {0} twC ?st2 = (''ALLOWED*'', Some twC)"
    unfolding demo_AC
    by (simp add: classify_def legitimacy_check_def plmn_ok_def tac_ok_def arfcn_ok_def
        ALLOWED_ARFCN_get_def twC_def)
  have idC: "id_tw twC = 2" by (simp add: twC_def)
  have lg: "log_rlce (demo [twA, twC]) = []" by (simp add: demo_AC)
  show ?thesis
    by (simp add: step_poll [OF nc] locate_demo_AC w n cl log_event_def last8_def idC lg)
qed

theorem legitimacy_score_allowed_star_witness:
  "step ''12:00:01'' (300, 0) 1 (demo [twA, twC]) =
     Inr (Some (1, ''ALLOWED*'', Some twC),
          (demo [twA, twC])\<lparr> last_poll_time := 1, last_seg_idx := Some 1, last_serving := Some twC,
                    log_rlce := [Event ''12:00:01'' 1 ''ALLOWED*'' (Some 2)] \<rparr>) \<and>
   nearest_tower (300, 0) (demo [twA, twC]) = Inr twC \<and>
   id_tw twC \<notin> cal_window 1 (demo [twA, twC]) \<and>
   2 \<le> legitimacy_check (demo [twA, twC]) twC (last_serving (demo [twA, twC])) \<and>
   \<not> rogue twC \<and>
   legitimacy_check (demo [twA, twC]) twC (last_serving (demo [twA, twC])) = 3"
proof -
  have idC: "id_tw twC = 2" by (simp add: twC_def)
  have h3: "id_tw twC \<notin> cal_window 1 (demo [twA, twC])"
    by (simp add: window_demo_AC idC)
  have h4: "legitimacy_check (demo [twA, twC]) twC (last_serving (demo [twA, twC])) = 3"
    unfolding demo_AC
    by (simp add: legitimacy_check_def plmn_ok_def tac_ok_def arfcn_ok_def ALLOWED_ARFCN_get_def twC_def)
  have h5: "\<not> rogue twC" by (simp add: twC_def)
  show ?thesis
    using legitimacy_score_allowed_star [of "demo [twA, twC]" twC "last_serving (demo [twA, twC])"
        "''12:00:01''" "(300, 0)" 1 1 "''ALLOWED*''" "Some twC"
        "(demo [twA, twC])\<lparr> last_poll_time := 1, last_seg_idx := Some 1, last_serving := Some twC,
                    log_rlce := [Event ''12:00:01'' 1 ''ALLOWED*'' (Some 2)] \<rparr>" twC]
      step_demo_AC nearest_demo_AC h3 h4 h5
    by simp
qed

lemma reselect_None: "reselect p cands = None \<longleftrightarrow> cands = []"
  by (simp add: reselect_def split: list.splits)

lemma reselect_Some:
  assumes "cands \<noteq> []"
  shows "\<exists>tw\<in>set cands. reselect p cands = Some tw \<and>
           (\<forall>u\<in>set cands. dist_pt p (pos tw) \<le> dist_pt p (pos u))"
proof -
  from assms obtain b us where c: "cands = b # us" by (cases cands) auto
  let ?f = "\<lambda>tw. dist_pt p (pos tw)"
  have m: "min_from ?f b us \<in> set cands"
    using min_from_mem [of ?f b us] by (simp add: c)
  have le: "\<forall>u\<in>set cands. ?f (min_from ?f b us) \<le> ?f u"
    using min_from_le [of _ us ?f b] min_from_le_best [of ?f b us] by (auto simp: c)
  have "reselect p cands = Some (min_from ?f b us)" by (simp add: reselect_def c)
  with m le show ?thesis by blast
qed

lemma classify_BARRED:
  "classify p w cand st = (''BARRED'', s) \<Longrightarrow> s = reselect p (candidates w st)"
  by (auto simp: classify_def Let_def split: if_splits)

subsection \<open>C5: what a BARRED poll returns and stores\<close>

text \<open>
  Claim C5. When a poll returns the decision \<open>BARRED\<close> for segment \<open>i\<close>, the serving tower
  returned is chosen among the towers whose id is in the calibration window of \<open>i\<close>:
  if there is such a tower, the one returned is one of them, none of them is nearer to the
  vehicle, and it becomes \<open>last_serving\<close>; if there is none, the serving tower returned is
  \<open>None\<close> and \<open>last_serving\<close> keeps the value it had before the poll.
\<close>

theorem barred_reselection:
  assumes "step ts p now st = Inr (Some (i, ''BARRED'', s), st')"
  shows "(filter (\<lambda>tw. id_tw tw \<in> cal_window i st) (towers st) = []
            \<longrightarrow> s = None \<and> last_serving st' = last_serving st) \<and>
         (filter (\<lambda>tw. id_tw tw \<in> cal_window i st) (towers st) \<noteq> []
            \<longrightarrow> (\<exists>tw\<in>set (filter (\<lambda>tw. id_tw tw \<in> cal_window i st) (towers st)).
                   s = Some tw \<and> last_serving st' = Some tw \<and>
                   (\<forall>u\<in>set (filter (\<lambda>tw. id_tw tw \<in> cal_window i st) (towers st)).
                      dist_pt p (pos tw) \<le> dist_pt p (pos u))))"
proof -
  let ?cands = "filter (\<lambda>tw. id_tw tw \<in> cal_window i st) (towers st)"
  from assms obtain cand where c: "(''BARRED'', s) = classify p (cal_window i st) cand st"
      and ls: "last_serving st' = (case s of None \<Rightarrow> last_serving st | Some tw \<Rightarrow> Some tw)"
    using step_SomeD [of ts p now st i "''BARRED''" s st'] by auto
  have s: "s = reselect p ?cands"
    using classify_BARRED [of p "cal_window i st" cand st s] c by (simp add: candidates_def)
  have none: "?cands = [] \<longrightarrow> s = None \<and> last_serving st' = last_serving st"
  proof
    assume e: "?cands = []"
    then have "s = None" using s reselect_None [of p ?cands] by simp
    then show "s = None \<and> last_serving st' = last_serving st" using ls by simp
  qed
  have some: "?cands \<noteq> [] \<longrightarrow> (\<exists>tw\<in>set ?cands. s = Some tw \<and> last_serving st' = Some tw \<and>
        (\<forall>u\<in>set ?cands. dist_pt p (pos tw) \<le> dist_pt p (pos u)))"
  proof
    assume ne: "?cands \<noteq> []"
    then obtain tw where tw: "tw \<in> set ?cands" "reselect p ?cands = Some tw"
        "\<forall>u\<in>set ?cands. dist_pt p (pos tw) \<le> dist_pt p (pos u)"
      using reselect_Some [of ?cands p] by blast
    have "s = Some tw" using s tw(2) by simp
    moreover have "last_serving st' = Some tw" using ls \<open>s = Some tw\<close> by simp
    ultimately show "\<exists>tw\<in>set ?cands. s = Some tw \<and> last_serving st' = Some tw \<and>
        (\<forall>u\<in>set ?cands. dist_pt p (pos tw) \<le> dist_pt p (pos u))"
      using tw(1) tw(3) by blast
  qed
  from none some show ?thesis by (rule conjI)
qed

lemma demo1_eq:
  "demo1 = \<lparr> route = \<lparr> points = [(0, 0), (10, 0), (20, 0)],
       segments = [\<lparr> idx = 0, a_seg = (0, 0), b_seg = (10, 0), cal = {0} \<rparr>,
                   \<lparr> idx = 1, a_seg = (10, 0), b_seg = (20, 0), cal = {0} \<rparr>],
       operator_plmn = ''310260'' \<rparr>, towers = [twA, twB], grace = 1, hysteresis = 40, poll_ms = 250,
       last_seg_idx = Some 0, last_serving = Some twA, last_poll_time = 1,
       log_rlce = [Event ''12:00:01'' 0 ''BARRED'' (Some 0)] \<rparr>"
  by (simp add: demo1_def demo_AB)

lemma demo2_eq:
  "demo2 = \<lparr> route = \<lparr> points = [(0, 0), (10, 0), (20, 0)],
       segments = [\<lparr> idx = 0, a_seg = (0, 0), b_seg = (10, 0), cal = {} \<rparr>,
                   \<lparr> idx = 1, a_seg = (10, 0), b_seg = (20, 0), cal = {} \<rparr>],
       operator_plmn = ''310260'' \<rparr>, towers = [twB], grace = 1, hysteresis = 40, poll_ms = 250,
       last_seg_idx = Some 0, last_serving = Some twA, last_poll_time = 1,
       log_rlce = [Event ''12:00:01'' 0 ''BARRED'' (Some 0)] \<rparr>"
  by (simp add: demo2_def key_n_def demo1_eq rebuild_cal_def rebuild_seg_def cal_add_def twB_def)

lemma locate_demo2:
  "locate_segment (8, 0) (demo2\<lparr>last_poll_time := 2\<rparr>) = Inr (0, demo2\<lparr>last_poll_time := 2\<rparr>)"
  by (simp add: demo2_eq locate_segment_def py_get_def seg_dist_def project_point_to_segment_def
      Let_def clamp_def dist_pt_def)

lemma window_demo2: "cal_window 0 demo2 = {}"
  by (simp add: demo2_eq cal_window_def upto_0_1)

lemma towers_demo2: "towers demo2 = [twB]"
  by (simp add: demo2_eq)

lemma step_demo2:
  "step ''12:00:02'' (8, 0) 2 demo2 = Inr (Some (0, ''BARRED'', None), demo3)"
proof -
  have nc: "\<not> (2 - last_poll_time demo2) * 1000 < real_of_int (poll_ms demo2)"
    by (simp add: demo2_eq)
  let ?st2 = "demo2\<lparr>last_poll_time := 2\<rparr>"
  have w: "cal_window 0 ?st2 = {}"
    using cal_window_cong [of ?st2 demo2 0] by (simp add: window_demo2)
  have n: "nearest_tower (8, 0) ?st2 = Inr twB"
    by (simp add: nearest_tower_def py_min_key_def towers_demo2)
  have cl: "classify (8, 0) {} twB ?st2 = (''BARRED'', None)"
    unfolding demo2_eq
    by (simp add: classify_def legitimacy_check_def plmn_ok_def tac_ok_def arfcn_ok_def
        ALLOWED_ARFCN_get_def candidates_def reselect_def twA_def twB_def)
  have lg: "log_rlce demo2 = [Event ''12:00:01'' 0 ''BARRED'' (Some 0)]" by (simp add: demo2_eq)
  show ?thesis
    by (simp add: step_poll [OF nc] locate_demo2 w n cl log_event_def last8_def lg demo3_def)
qed

theorem barred_reselection_witness:
  "step ''12:00:01'' (8, 0) 1 (demo [twA, twB]) = Inr (Some (0, ''BARRED'', Some twA), demo1) \<and>
   filter (\<lambda>tw. id_tw tw \<in> cal_window 0 (demo [twA, twB])) (towers (demo [twA, twB])) = [twA] \<and>
   last_serving demo1 = Some twA \<and>
   step ''12:00:02'' (8, 0) 2 demo2 = Inr (Some (0, ''BARRED'', None), demo3) \<and>
   filter (\<lambda>tw. id_tw tw \<in> cal_window 0 demo2) (towers demo2) = [] \<and>
   last_serving demo2 = Some twA \<and> last_serving demo3 = Some twA"
proof -
  have w1: "cal_window 0 (demo [twA, twB]) = {0}"
    by (simp add: demo_AB cal_window_def upto_0_1)
  have t1: "towers (demo [twA, twB]) = [twA, twB]" by (simp add: demo_AB)
  have f1: "filter (\<lambda>tw. id_tw tw \<in> cal_window 0 (demo [twA, twB])) (towers (demo [twA, twB])) = [twA]"
    unfolding w1 t1 by (simp add: twA_def twB_def)
  have f2: "filter (\<lambda>tw. id_tw tw \<in> cal_window 0 demo2) (towers demo2) = []"
    by (simp add: window_demo2)
  have l2: "last_serving demo2 = Some twA" by (simp add: demo2_eq)
  from barred_reselection [OF step_demo1] f1
  have r1: "last_serving demo1 = Some twA" by auto
  from barred_reselection [OF step_demo2] f2 l2
  have r2: "last_serving demo3 = Some twA" by auto
  from step_demo1 f1 r1 step_demo2 f2 l2 r2 show ?thesis by blast
qed

lemma foldl_cal_add:
  "foldl (cal_add r m) s tws =
     s \<union> {id_tw tw | tw. tw \<in> set tws \<and> dist_pt m (pos tw) \<le> r \<and> \<not> rogue tw}"
proof (induction tws arbitrary: s)
  case Nil
  show ?case by simp
next
  case (Cons t ts)
  show ?case unfolding foldl_Cons Cons.IH by (auto simp: cal_add_def)
qed

lemma cal_rebuild_seg:
  "cal (rebuild_seg r tws seg) =
     {id_tw tw | tw. tw \<in> set tws \<and> dist_pt (mid seg) (pos tw) \<le> r \<and> \<not> rogue tw}"
  by (simp add: rebuild_seg_def foldl_cal_add)

lemma mid_rebuild_seg: "mid (rebuild_seg r tws seg) = mid seg"
  by (simp add: rebuild_seg_def mid_def)

lemma rebuild_seg_idem: "rebuild_seg r tws (rebuild_seg r tws seg) = rebuild_seg r tws seg"
  by (simp add: rebuild_seg_def mid_def)

lemma rebuild_seg_prior: "rebuild_seg r tws (seg\<lparr> cal := c \<rparr>) = rebuild_seg r tws seg"
  by (simp add: rebuild_seg_def mid_def)

lemma segments_rebuild_cal:
  "segments (route (rebuild_cal r st)) = map (rebuild_seg r (towers st)) (segments (route st))"
  by (simp add: rebuild_cal_def)

lemma towers_rebuild_cal: "towers (rebuild_cal r st) = towers st"
  by (simp add: rebuild_cal_def)

lemma rebuild_cal_idem: "rebuild_cal r (rebuild_cal r st) = rebuild_cal r st"
  by (simp add: rebuild_cal_def rebuild_seg_idem o_def)

lemma calibrated_rebuild_cal: "calibrated r (rebuild_cal r st)"
  by (simp add: calibrated_def rebuild_cal_idem)

lemma calibrated_cal:
  assumes "calibrated r st" and "seg \<in> set (segments (route st))"
  shows "cal seg = {id_tw tw | tw. tw \<in> set (towers st) \<and> dist_pt (mid seg) (pos tw) \<le> r \<and> \<not> rogue tw}"
proof -
  from assms(1) have "segments (route (rebuild_cal r st)) = segments (route st)"
    by (simp add: calibrated_def)
  with assms(2) have "seg \<in> set (map (rebuild_seg r (towers st)) (segments (route st)))"
    by (simp add: segments_rebuild_cal)
  then obtain s0 where "seg = rebuild_seg r (towers st) s0"
    by auto
  then show ?thesis by (simp add: cal_rebuild_seg mid_rebuild_seg)
qed

subsection \<open>C2: the calibration builder\<close>

text \<open>
  Claim C2. After \<open>rebuild_cal\<close> with radius \<open>r\<close>, the \<open>cal\<close> set of every segment is exactly
  the set of the ids of the towers that are within distance \<open>r\<close> of the midpoint of the
  segment and not rogue; the result does not depend on what the \<open>cal\<close> sets held before;
  when tower ids are unique, the id of a rogue tower is in no \<open>cal\<close> set; and running the
  builder a second time changes nothing.
\<close>

theorem rebuild_cal_exact:
  "(\<forall>seg\<in>set (segments (route (rebuild_cal r st))).
      cal seg = {id_tw tw | tw. tw \<in> set (towers st) \<and> dist_pt (mid seg) (pos tw) \<le> r \<and> \<not> rogue tw}) \<and>
   rebuild_cal r (st\<lparr> route := (route st)\<lparr> segments :=
        map (\<lambda>seg. seg\<lparr> cal := prior seg \<rparr>) (segments (route st)) \<rparr> \<rparr>) = rebuild_cal r st \<and>
   (distinct (map id_tw (towers st)) \<longrightarrow>
      (\<forall>seg\<in>set (segments (route (rebuild_cal r st))). \<forall>tw\<in>set (towers st).
         rogue tw \<longrightarrow> id_tw tw \<notin> cal seg)) \<and>
   rebuild_cal r (rebuild_cal r st) = rebuild_cal r st"
proof (intro conjI)
  show exact: "\<forall>seg\<in>set (segments (route (rebuild_cal r st))).
      cal seg = {id_tw tw | tw. tw \<in> set (towers st) \<and> dist_pt (mid seg) (pos tw) \<le> r \<and> \<not> rogue tw}"
  proof
    fix seg
    assume "seg \<in> set (segments (route (rebuild_cal r st)))"
    then obtain s0 where "seg = rebuild_seg r (towers st) s0"
      by (auto simp: segments_rebuild_cal)
    then show "cal seg = {id_tw tw | tw. tw \<in> set (towers st) \<and> dist_pt (mid seg) (pos tw) \<le> r \<and> \<not> rogue tw}"
      by (simp add: cal_rebuild_seg mid_rebuild_seg)
  qed
  show "rebuild_cal r (st\<lparr> route := (route st)\<lparr> segments :=
        map (\<lambda>seg. seg\<lparr> cal := prior seg \<rparr>) (segments (route st)) \<rparr> \<rparr>) = rebuild_cal r st"
    by (simp add: rebuild_cal_def rebuild_seg_prior o_def)
  show "distinct (map id_tw (towers st)) \<longrightarrow>
      (\<forall>seg\<in>set (segments (route (rebuild_cal r st))). \<forall>tw\<in>set (towers st).
         rogue tw \<longrightarrow> id_tw tw \<notin> cal seg)"
  proof (intro impI ballI)
    fix seg tw
    assume d: "distinct (map id_tw (towers st))"
      and seg: "seg \<in> set (segments (route (rebuild_cal r st)))"
      and tw: "tw \<in> set (towers st)" and rg: "rogue tw"
    show "id_tw tw \<notin> cal seg"
    proof
      assume "id_tw tw \<in> cal seg"
      with exact seg obtain u where u: "u \<in> set (towers st)" "id_tw u = id_tw tw" "\<not> rogue u"
        by auto
      from d u(1) tw u(2) have "u = tw"
        by (meson distinct_map inj_onD)
      with u(3) rg show False by simp
    qed
  qed
  show "rebuild_cal r (rebuild_cal r st) = rebuild_cal r st"
    by (simp add: rebuild_cal_def rebuild_seg_idem o_def)
qed


theorem rebuild_cal_exact_witness:
  "distinct (map id_tw (towers (init_RLCE demo_route [twA, twB]))) \<and>
   segments (route (rebuild_cal 220 (init_RLCE demo_route [twA, twB]))) =
     [\<lparr> idx = 0, a_seg = (0, 0), b_seg = (10, 0), cal = {0} \<rparr>,
      \<lparr> idx = 1, a_seg = (10, 0), b_seg = (20, 0), cal = {0} \<rparr>] \<and>
   twB \<in> set (towers (init_RLCE demo_route [twA, twB])) \<and> rogue twB \<and>
   id_tw twB \<notin> cal \<lparr> idx = 0, a_seg = (0, 0), b_seg = (10, 0), cal = {0} \<rparr> \<and>
   id_tw twB \<notin> cal \<lparr> idx = 1, a_seg = (10, 0), b_seg = (20, 0), cal = {0} \<rparr> \<and>
   rebuild_cal 220 (rebuild_cal 220 (init_RLCE demo_route [twA, twB])) =
     rebuild_cal 220 (init_RLCE demo_route [twA, twB])"
proof -
  let ?st = "init_RLCE demo_route [twA, twB]"
  have d: "distinct (map id_tw (towers ?st))"
    by (simp add: init_RLCE_def twA_def twB_def)
  have sg: "segments (route (rebuild_cal 220 ?st)) =
     [\<lparr> idx = 0, a_seg = (0, 0), b_seg = (10, 0), cal = {0} \<rparr>,
      \<lparr> idx = 1, a_seg = (10, 0), b_seg = (20, 0), cal = {0} \<rparr>]"
    using demo_AB by (simp add: demo_def)
  have tw: "twB \<in> set (towers ?st)" "rogue twB"
    by (simp_all add: init_RLCE_def twB_def)
  note inst = rebuild_cal_exact [of 220 ?st "\<lambda>_. {7}"]
  from inst d have nr: "\<forall>seg\<in>set (segments (route (rebuild_cal 220 ?st))). \<forall>tw\<in>set (towers ?st).
         rogue tw \<longrightarrow> id_tw tw \<notin> cal seg"
    by blast
  have n0: "id_tw twB \<notin> cal \<lparr> idx = 0, a_seg = (0, 0), b_seg = (10, 0), cal = {0} \<rparr>"
    using nr tw unfolding sg by (meson list.set_intros(1))
  have n1: "id_tw twB \<notin> cal \<lparr> idx = 1, a_seg = (10, 0), b_seg = (20, 0), cal = {0} \<rparr>"
    using nr tw unfolding sg by (meson list.set_intros)
  from inst have idem: "rebuild_cal 220 (rebuild_cal 220 ?st) = rebuild_cal 220 ?st"
    by blast
  from d sg tw n0 n1 idem show ?thesis by blast
qed

lemma foldl_union_mem:
  "x \<in> foldl (\<lambda>s j. s \<union> g j) s0 js \<longleftrightarrow> x \<in> s0 \<or> (\<exists>j\<in>set js. x \<in> g j)"
  by (induction js arbitrary: s0) auto

lemma cal_window_mem:
  assumes "x \<in> cal_window i st"
  shows "\<exists>seg\<in>set (segments (route st)). x \<in> cal seg"
proof -
  let ?segs = "segments (route st)"
  from assms obtain j where j: "max 0 (i - grace st) \<le> j" "j \<le> min (int (length ?segs) - 1) (i + grace st)"
      "x \<in> cal (?segs ! nat j)"
    by (auto simp: cal_window_def Let_def foldl_union_mem)
  then have "nat j < length ?segs" by auto
  then have "?segs ! nat j \<in> set ?segs" by (rule nth_mem)
  with j(3) show ?thesis by blast
qed

lemma step_BARRED_candidates:
  assumes "step ts p now st = Inr (Some (i, ''BARRED'', Some tw), st')"
  shows "tw \<in> set (candidates (cal_window i st) st)"
proof -
  from assms obtain cand where c: "(''BARRED'', Some tw) = classify p (cal_window i st) cand st"
    using step_SomeD [of ts p now st i "''BARRED''" "Some tw" st'] by auto
  then have s: "reselect p (candidates (cal_window i st) st) = Some tw"
    using classify_BARRED [of p "cal_window i st" cand st "Some tw"] by simp
  then have "candidates (cal_window i st) st \<noteq> []"
    using reselect_None [of p "candidates (cal_window i st) st"] by auto
  then obtain u where "u \<in> set (candidates (cal_window i st) st)"
      "reselect p (candidates (cal_window i st) st) = Some u"
    using reselect_Some [of "candidates (cal_window i st) st" p] by blast
  with s show ?thesis by simp
qed

subsection \<open>C6: the tower reselected on a BARRED poll is trusted\<close>

text \<open>
  Claim C6. When a poll returns \<open>BARRED\<close> together with a reselected serving tower, that
  tower is one of the engine's towers and its id is in the calibration window of the
  segment returned; and when the stored calibration is the one built from the current
  towers (with some radius \<open>r\<close>) and tower ids are unique, the reselected tower is not rogue.
\<close>

theorem barred_reselect_trusted:
  assumes "step ts p now st = Inr (Some (i, ''BARRED'', Some tw), st')"
  shows "tw \<in> set (towers st) \<and> id_tw tw \<in> cal_window i st \<and>
         (calibrated r st \<and> distinct (map id_tw (towers st)) \<longrightarrow> \<not> rogue tw)"
proof -
  from assms have "tw \<in> set (candidates (cal_window i st) st)"
    by (rule step_BARRED_candidates)
  then have m: "tw \<in> set (towers st)" and w: "id_tw tw \<in> cal_window i st"
    by (simp_all add: candidates_def)
  have "\<not> rogue tw" if c: "calibrated r st" and d: "distinct (map id_tw (towers st))"
  proof -
    from w obtain seg where seg: "seg \<in> set (segments (route st))" "id_tw tw \<in> cal seg"
      using cal_window_mem by blast
    with calibrated_cal [OF c seg(1)]
    obtain u where u: "u \<in> set (towers st)" "id_tw u = id_tw tw" "\<not> rogue u"
      by auto
    from d u(1) m u(2) have "u = tw" by (meson distinct_map inj_onD)
    with u(3) show ?thesis by simp
  qed
  with m w show ?thesis by blast
qed

theorem barred_reselect_trusted_witness:
  "step ''12:00:01'' (8, 0) 1 (demo [twA, twB]) = Inr (Some (0, ''BARRED'', Some twA), demo1) \<and>
   calibrated 220 (demo [twA, twB]) \<and> distinct (map id_tw (towers (demo [twA, twB]))) \<and>
   twA \<in> set (towers (demo [twA, twB])) \<and> id_tw twA \<in> cal_window 0 (demo [twA, twB]) \<and>
   \<not> rogue twA"
proof -
  have c: "calibrated 220 (demo [twA, twB])"
    unfolding demo_def by (rule calibrated_rebuild_cal)
  have d: "distinct (map id_tw (towers (demo [twA, twB])))"
    unfolding demo_AB by (simp add: twA_def twB_def)
  from barred_reselect_trusted [OF step_demo1, of 220] c d step_demo1
  show ?thesis by blast
qed

end
